theory Spec2Isabelle
  imports Main "HOL-Library.Multiset" "HOL-Library.AList"
begin

section \<open>Python values, exceptions and the random source\<close>

text \<open>
  The exceptions the modelled code can meet. \<open>ValueError\<close> is what
  \<^verbatim>\<open>random.randint\<close> raises on an empty range and what pandas raises when a
  column of the wrong length is assigned, \<open>KeyError\<close> is a missing column or row
  label.
\<close>

datatype py_error = ValueError | KeyError

text \<open>
  The state of Python's global random generator is a position \<open>i\<close> in a fixed
  sequence \<open>g\<close> of raw draws. \<^verbatim>\<open>random.randint(a, b)\<close> raises on an empty
  range (before anything is drawn) and otherwise returns a value of \<open>[a, b]\<close>; every
  value of the range is the image of some raw draw.
\<close>

type_synonym rng = "nat \<Rightarrow> nat"

definition randint :: "int \<Rightarrow> int \<Rightarrow> nat \<Rightarrow> py_error + int" where
  "randint a b r = (if b < a then Inl ValueError else Inr (a + int r mod (b - a + 1)))"

text \<open>
  \<^verbatim>\<open>int(current_value / divisor)\<close>: the quotient truncated towards zero. The
  amounts are Python integers; the float that \<^verbatim>\<open>/\<close> produces on the way is
  taken to be exact enough for the truncation, which it is for operands below \<open>2^53\<close>.
\<close>

definition int_of_quotient :: "int \<Rightarrow> int \<Rightarrow> int" where
  "int_of_quotient a b = sgn a * sgn b * (\<bar>a\<bar> div \<bar>b\<bar>)"

section \<open>utils.py: generate_random_transactions_CTA\<close>

text \<open>
  The \<^verbatim>\<open>while divisor > 2\<close> loop. The state is the position in the random
  sequence, the list \<open>transactions\<close>, \<open>current_value\<close> and \<open>divisor\<close>. An exception
  leaves the loop with the state as it was when it was raised: the list is a local
  that the \<^verbatim>\<open>except\<close> handler and the \<^verbatim>\<open>return\<close> still see.
\<close>

function descent ::
  "rng \<Rightarrow> nat \<Rightarrow> int list \<Rightarrow> int \<Rightarrow> int \<Rightarrow> py_error option \<times> nat \<times> int list \<times> int \<times> int" where
  "descent g i transactions current_value divisor =
     (if divisor > 2 then
        (case randint 1 (int_of_quotient current_value divisor) (g i) of
           Inl e \<Rightarrow> (Some e, i, transactions, current_value, divisor)
         | Inr random_number \<Rightarrow>
             descent g (Suc i) (transactions @ [random_number])
               (current_value - random_number) (divisor - 1))
      else (None, i, transactions, current_value, divisor))"
  by pat_completeness auto
termination
  by (relation "measure (\<lambda>(g, i, ts, cur, d). nat (d - 2))") auto

text \<open>
  The whole function. The result is the exception that the handler caught and
  printed (if any), the new position in the random sequence, and the returned list.
  No exception leaves the function: the handler catches every \<^verbatim>\<open>Exception\<close>.
\<close>

definition generate_random_transactions_CTA ::
  "rng \<Rightarrow> nat \<Rightarrow> int \<Rightarrow> int \<Rightarrow> py_error option \<times> nat \<times> int list" where
  "generate_random_transactions_CTA g i target_number divisor =
     (case descent g i [] target_number divisor of
        (Some e, j, transactions, current_value, d) \<Rightarrow> (Some e, j, transactions)
      | (None, j, transactions, current_value, d) \<Rightarrow>
          (if d = 2 then
             (let remaining_value = target_number - sum_list transactions;
                  first_part = remaining_value div 4;
                  second_part = remaining_value - first_part
              in (None, j, transactions @ [first_part, second_part]))
           else (None, j, transactions @ [current_value])))"

text \<open>What the caller receives, and what was printed.\<close>

definition decompose :: "rng \<Rightarrow> nat \<Rightarrow> int \<Rightarrow> int \<Rightarrow> int list" where
  "decompose g i target_total n = snd (snd (generate_random_transactions_CTA g i target_total n))"


section \<open>utils.py: create_transactions_one_day\<close>

text \<open>
  A calendar date is its proleptic ordinal (\<^verbatim>\<open>date.toordinal()\<close>); a
  \<^verbatim>\<open>datetime\<close> is a date with a time of day. \<^verbatim>\<open>datetime.time(h, m, s)\<close>
  raises \<open>ValueError\<close> outside \<open>0..23\<close>, \<open>0..59\<close>, \<open>0..59\<close>.
\<close>

type_synonym date = int

record datetime =
  dt_date :: date
  hour :: int
  minute :: int
  second :: int

definition time_of_day :: "int \<Rightarrow> int \<Rightarrow> int \<Rightarrow> py_error + (int \<times> int \<times> int)" where
  "time_of_day h m s =
     (if 0 \<le> h \<and> h \<le> 23 \<and> 0 \<le> m \<and> m \<le> 59 \<and> 0 \<le> s \<and> s \<le> 59 then Inr (h, m, s)
      else Inl ValueError)"

definition combine :: "date \<Rightarrow> int \<times> int \<times> int \<Rightarrow> datetime" where
  "combine d t = (case t of (h, m, s) \<Rightarrow> \<lparr>dt_date = d, hour = h, minute = m, second = s\<rparr>)"

text \<open>A row of the returned frame: the columns \<open>Timestamp\<close> and \<open>Amount\<close>.\<close>

type_synonym txn = "datetime \<times> int"

text \<open>
  The \<^verbatim>\<open>for amount in transaction_lists\<close> loop, inside its \<^verbatim>\<open>try\<close>: three
  draws, the timestamp, the append. An exception ends the loop and leaves
  \<open>random_transactions\<close> as it is.
\<close>

fun assign_loop ::
  "rng \<Rightarrow> nat \<Rightarrow> date \<Rightarrow> int list \<Rightarrow> txn list \<Rightarrow> py_error option \<times> nat \<times> txn list" where
  "assign_loop g i d [] random_transactions = (None, i, random_transactions)"
| "assign_loop g i d (amount # rest) random_transactions =
     (case randint 0 23 (g i) of
        Inl e \<Rightarrow> (Some e, i, random_transactions)
      | Inr random_hour \<Rightarrow>
     (case randint 0 59 (g (i + 1)) of
        Inl e \<Rightarrow> (Some e, i + 1, random_transactions)
      | Inr random_minute \<Rightarrow>
     (case randint 0 59 (g (i + 2)) of
        Inl e \<Rightarrow> (Some e, i + 2, random_transactions)
      | Inr random_second \<Rightarrow>
     (case time_of_day random_hour random_minute random_second of
        Inl e \<Rightarrow> (Some e, i + 3, random_transactions)
      | Inr t \<Rightarrow>
          assign_loop g (i + 3) d rest (random_transactions @ [(combine d t, amount)])))))"

definition create_transactions_one_day ::
  "rng \<Rightarrow> nat \<Rightarrow> date \<Rightarrow> int list \<Rightarrow> py_error option \<times> nat \<times> txn list" where
  "create_transactions_one_day g i d transaction_lists = assign_loop g i d transaction_lists []"

text \<open>The rows of the frame that the caller receives.\<close>

definition assign :: "rng \<Rightarrow> nat \<Rightarrow> date \<Rightarrow> int list \<Rightarrow> txn list" where
  "assign g i d amounts = snd (snd (create_transactions_one_day g i d amounts))"

section \<open>steps/synthetic_data_steps.py: the data frame\<close>

text \<open>
  The frame that the pipeline passes from step to step: \<open>nrows\<close> rows under the
  default index \<open>0..nrows-1\<close>, the \<open>timestamp\<close> column, the integer columns by label
  in column order (among them \<open>transactions_per_day_forecast\<close> and \<open>CTA_forecast\<close>),
  and the \<open>transactions\<close> column of amount lists once it has been added. The
  forecast columns hold integers; labels are unique in a well-formed frame
  (\<^verbatim>\<open>read_data\<close> removes duplicated labels).
\<close>

record frame =
  nrows :: nat
  timestamp :: "datetime list option"
  numeric :: "(string \<times> int list) list"
  transactions :: "int list list option"

definition wf_frame :: "frame \<Rightarrow> bool" where
  "wf_frame df \<longleftrightarrow>
     distinct (map fst (numeric df)) \<and>
     list_all (\<lambda>(c, v). length v = nrows df) (numeric df) \<and>
     (case timestamp df of None \<Rightarrow> True | Some v \<Rightarrow> length v = nrows df) \<and>
     (case transactions df of None \<Rightarrow> True | Some v \<Rightarrow> length v = nrows df)"

text \<open>\<^verbatim>\<open>df[c]\<close> on an integer column, and \<^verbatim>\<open>df[c][idx]\<close>.\<close>

definition getitem :: "frame \<Rightarrow> string \<Rightarrow> py_error + int list" where
  "getitem df c = (case map_of (numeric df) c of None \<Rightarrow> Inl KeyError | Some v \<Rightarrow> Inr v)"


text \<open>
  \<^verbatim>\<open>df[c] = series\<close>: the column is replaced where it stands, or added as the
  last column.
\<close>

definition setitem :: "frame \<Rightarrow> string \<Rightarrow> int list \<Rightarrow> frame" where
  "setitem df c v = df\<lparr>numeric := AList.update c v (numeric df)\<rparr>"


section \<open>steps/synthetic_data_steps.py: modify_forecasts\<close>

text \<open>
  Two column assignments in one \<^verbatim>\<open>try\<close>. The result is the exception that was
  caught and printed (if any) and the returned frame, which is the argument as the
  assignments that ran have left it.
\<close>

definition modify_forecasts :: "frame \<Rightarrow> int \<Rightarrow> int \<Rightarrow> int \<Rightarrow> int \<Rightarrow> py_error option \<times> frame" where
  "modify_forecasts df trx_add trx_mul CTA_add CTA_mul =
     (case getitem df ''transactions_per_day_forecast'' of
        Inl e \<Rightarrow> (Some e, df)
      | Inr trx \<Rightarrow>
          (let df1 = setitem df ''transactions_per_day_forecast''
                       (map (\<lambda>x. (x + trx_add) * trx_mul) trx)
           in (case getitem df1 ''CTA_forecast'' of
                 Inl e \<Rightarrow> (Some e, df1)
               | Inr cta \<Rightarrow>
                   (None, setitem df1 ''CTA_forecast'' (map (\<lambda>x. (x + CTA_add) * CTA_mul) cta)))))"

section \<open>steps/synthetic_data_steps.py: generate_transactions\<close>




section \<open>steps/synthetic_data_steps.py: save_transactions_data_to_mongodb\<close>

text \<open>
  The document store is an external service. Its behaviour during one run is a
  parameter: whether the ping fails, whether \<open>delete_many\<close> fails (the collection
  is then left as it was), and for the \<open>k\<close>-th \<open>insert_many\<close> call of the run
  whether it fails and after how many written documents. The exceptions of the
  store are caught and printed where they arise, so they appear in the model only
  through the branch taken. A collection is the list of its documents in insertion
  order.
\<close>

record store_run =
  ping_fails :: bool
  delete_fails :: bool
  insert_fails :: "nat \<Rightarrow> nat option"

datatype store_call = Ping | DeleteMany | InsertMany "txn list"

definition stamp_key :: "datetime \<Rightarrow> int" where
  "stamp_key t = ((dt_date t * 24 + hour t) * 60 + minute t) * 60 + second t"

text \<open>
  \<^verbatim>\<open>row['timestamp'].date()\<close> and \<^verbatim>\<open>row['transactions']\<close> of the row
  \<open>idx\<close>.
\<close>

definition row_date :: "frame \<Rightarrow> nat \<Rightarrow> py_error + date" where
  "row_date df idx =
     (case timestamp df of
        None \<Rightarrow> Inl KeyError
      | Some v \<Rightarrow> (if idx < length v then Inr (dt_date (v ! idx)) else Inl KeyError))"

definition row_transactions :: "frame \<Rightarrow> nat \<Rightarrow> py_error + int list" where
  "row_transactions df idx =
     (case transactions df of
        None \<Rightarrow> Inl KeyError
      | Some v \<Rightarrow> (if idx < length v then Inr (v ! idx) else Inl KeyError))"

text \<open>
  The insert loop inside its \<^verbatim>\<open>try\<close>: per row the day's records, sorted by
  \<open>Timestamp\<close>, go to the store in one \<open>insert_many\<close>; any exception ends the loop.
  The state is the position in the random sequence, the collection and the calls
  made to the store so far; \<open>k\<close> counts the \<open>insert_many\<close> calls.
\<close>

fun insert_loop ::
  "rng \<Rightarrow> nat \<Rightarrow> frame \<Rightarrow> store_run \<Rightarrow> nat list \<Rightarrow> nat \<Rightarrow> txn list \<Rightarrow> store_call list
     \<Rightarrow> nat \<times> txn list \<times> store_call list" where
  "insert_loop g i df st [] k coll calls = (i, coll, calls)"
| "insert_loop g i df st (idx # rest) k coll calls =
     (case row_date df idx of
        Inl e \<Rightarrow> (i, coll, calls)
      | Inr d \<Rightarrow>
     (case row_transactions df idx of
        Inl e \<Rightarrow> (i, coll, calls)
      | Inr transaction_lists \<Rightarrow>
     (case create_transactions_one_day g i d transaction_lists of
        (printed, j, day) \<Rightarrow>
          (let records = sort_key (\<lambda>r. stamp_key (fst r)) day in
           (case insert_fails st k of
              Some written \<Rightarrow> (j, coll @ take written records, calls @ [InsertMany records])
            | None \<Rightarrow>
                insert_loop g j df st rest (Suc k) (coll @ records)
                  (calls @ [InsertMany records]))))))"

definition save_transactions_data_to_mongodb ::
  "rng \<Rightarrow> nat \<Rightarrow> frame \<Rightarrow> store_run \<Rightarrow> txn list \<Rightarrow> nat \<times> txn list \<times> store_call list" where
  "save_transactions_data_to_mongodb g i combined_df st coll =
     (if ping_fails st then (i, coll, [Ping])
      else if delete_fails st then (i, coll, [Ping, DeleteMany])
      else insert_loop g i combined_df st [0..<nrows combined_df] 0 [] [Ping, DeleteMany])"



section \<open>Properties of the decomposition\<close>

text \<open>
  The loop equation is used one step at a time, never as a rewrite rule.
\<close>


declare descent.simps [simp del]

lemma quot_nonneg: "0 \<le> a \<Longrightarrow> 0 < b \<Longrightarrow> int_of_quotient a b = a div b"
  by (cases "a = 0") (simp_all add: int_of_quotient_def)

lemma quot_low: "a < b \<Longrightarrow> 0 < b \<Longrightarrow> int_of_quotient a b \<le> 0"
proof (cases "0 \<le> a")
  case True
  assume "a < b" "0 < b"
  with True show ?thesis by (simp add: quot_nonneg)
next
  case False
  assume "0 < b"
  with False have "0 \<le> (- a) div b" by (simp add: pos_imp_zdiv_nonneg_iff)
  with False \<open>0 < b\<close> show ?thesis by (simp add: int_of_quotient_def)
qed

lemma randint_range:
  assumes "randint a b r = Inr x"
  shows "a \<le> x \<and> x \<le> b"
proof -
  from assms have ab: "a \<le> b" and x: "x = a + int r mod (b - a + 1)"
    by (auto simp: randint_def split: if_splits)
  from ab have m: "0 < b - a + 1" by simp
  have "0 \<le> int r mod (b - a + 1)" using m by (rule pos_mod_sign)
  moreover have "int r mod (b - a + 1) < b - a + 1" using m by (rule pos_mod_bound)
  ultimately show ?thesis using x by simp
qed

lemma randint_empty: "b < a \<Longrightarrow> randint a b r = Inl ValueError"
  by (simp add: randint_def)

lemma randint_total: "a \<le> b \<Longrightarrow> \<exists>x. randint a b r = Inr x"
  by (simp add: randint_def)

lemma step_bound:
  fixes cur d r :: int
  assumes "3 \<le> d" "d \<le> cur" "1 \<le> r" "r \<le> cur div d"
  shows "d - 1 \<le> cur - r"
proof -
  have "r * d \<le> (cur div d) * d" using assms by (intro mult_right_mono) simp_all
  also have "\<dots> \<le> cur"
  proof -
    have "(cur div d) * d + cur mod d = cur" by (rule div_mult_mod_eq)
    moreover have "0 \<le> cur mod d" using assms by (intro pos_mod_sign) simp
    ultimately show ?thesis by linarith
  qed
  finally have "r * d \<le> cur" .
  moreover have "1 * (d - 1) \<le> r * (d - 1)" using assms by (intro mult_right_mono) simp_all
  ultimately show ?thesis by (simp add: algebra_simps)
qed

lemma descent_skip: "d \<le> 2 \<Longrightarrow> descent g i ts cur d = (None, i, ts, cur, d)"
  by (simp add: descent.simps)

lemma descent_fail:
  assumes "3 \<le> d" "cur < d"
  shows "descent g i ts cur d = (Some ValueError, i, ts, cur, d)"
proof -
  from assms have "int_of_quotient cur d < 1" using quot_low [of cur d] by simp
  then have "randint 1 (int_of_quotient cur d) (g i) = Inl ValueError" by (rule randint_empty)
  with assms show ?thesis by (simp add: descent.simps [of g i ts cur d])
qed

lemma descent_ok:
  "2 \<le> d \<Longrightarrow> d \<le> cur \<Longrightarrow>
   \<exists>ps cur'. descent g i ts cur d = (None, i + nat (d - 2), ts @ ps, cur', 2)
     \<and> sum_list ps + cur' = cur \<and> length ps = nat (d - 2) \<and> 2 \<le> cur'
     \<and> (\<forall>x\<in>set ps. 1 \<le> x)"
proof (induction g i ts cur d rule: descent.induct)
  case (1 g i ts cur d)
  show ?case
  proof (cases "2 < d")
    case False
    with "1.prems" have "d = 2" by simp
    with "1.prems" show ?thesis by (simp add: descent.simps [of g i ts cur 2])
  next
    case True
    with "1.prems" have q: "int_of_quotient cur d = cur div d"
      by (simp add: quot_nonneg)
    from True "1.prems" have "0 < cur div d" by (simp add: pos_imp_zdiv_pos_iff)
    then have q1: "1 \<le> cur div d" by simp
    then obtain r where r: "randint 1 (int_of_quotient cur d) (g i) = Inr r"
      using randint_total [of 1 "int_of_quotient cur d" "g i"] q q1 by auto
    then have rr: "1 \<le> r" "r \<le> cur div d" using randint_range [OF r] q by simp_all
    with True "1.prems" have b: "d - 1 \<le> cur - r" by (intro step_bound) simp_all
    from True have "2 \<le> d - 1" by simp
    from "1.IH" [OF True r this b]
    obtain ps cur' where ih:
      "descent g (Suc i) (ts @ [r]) (cur - r) (d - 1) = (None, Suc i + nat (d - 1 - 2), (ts @ [r]) @ ps, cur', 2)"
      "sum_list ps + cur' = cur - r" "length ps = nat (d - 1 - 2)" "2 \<le> cur'" "\<forall>x\<in>set ps. 1 \<le> x"
      by blast
    have n: "Suc (nat (d - 1 - 2)) = nat (d - 2)" using True by simp
    have "descent g i ts cur d = (None, i + nat (d - 2), ts @ (r # ps), cur', 2)"
      using True r ih(1) n by (simp add: descent.simps [of g i ts cur d])
    moreover have "sum_list (r # ps) + cur' = cur" using ih(2) by simp
    moreover have "length (r # ps) = nat (d - 2)" using ih(3) n by simp
    moreover have "\<forall>x\<in>set (r # ps). 1 \<le> x" using ih(5) rr by simp
    ultimately show ?thesis using ih(4) by blast
  qed
qed


lemma generate_fail:
  "3 \<le> n \<Longrightarrow> t < n \<Longrightarrow> generate_random_transactions_CTA g i t n = (Some ValueError, i, [])"
  by (simp add: generate_random_transactions_CTA_def descent_fail)

lemma generate_small:
  "n < 2 \<Longrightarrow> generate_random_transactions_CTA g i t n = (None, i, [t])"
  by (simp add: generate_random_transactions_CTA_def descent_skip)

lemma generate_two:
  "generate_random_transactions_CTA g i t 2 = (None, i, [t div 4, t - t div 4])"
  by (simp add: generate_random_transactions_CTA_def descent_skip Let_def)

lemma quarter_bounds: "0 \<le> (c::int) \<Longrightarrow> 0 \<le> c div 4 \<and> c div 4 \<le> c"
  by presburger

lemma generate_ok:
  assumes "3 \<le> n" "n \<le> t"
  shows "\<exists>ps cur. generate_random_transactions_CTA g i t n
           = (None, i + nat (n - 2), ps @ [cur div 4, cur - cur div 4])
         \<and> sum_list ps + cur = t \<and> length ps = nat (n - 2) \<and> 2 \<le> cur
         \<and> (\<forall>x\<in>set ps. 1 \<le> x)"
proof -
  from assms have "2 \<le> n" by simp
  from descent_ok [OF this assms(2), of g i "[]"]
  obtain ps cur where d: "descent g i [] t n = (None, i + nat (n - 2), ps, cur, 2)"
    and s: "sum_list ps + cur = t" and l: "length ps = nat (n - 2)" and c: "2 \<le> cur"
    and p: "\<forall>x\<in>set ps. 1 \<le> x"
    by auto
  from s have "t - sum_list ps = cur" by simp
  with d have "generate_random_transactions_CTA g i t n
      = (None, i + nat (n - 2), ps @ [cur div 4, cur - cur div 4])"
    by (simp add: generate_random_transactions_CTA_def Let_def)
  with s l c p show ?thesis by blast
qed







text \<open>
  Claim C5, as amended. For every \<open>target_total \<ge> 0\<close> and every \<open>count \<ge> 1\<close>, every
  element of the returned list is a non-negative integer.
\<close>

theorem decompose_nonneg:
  assumes "0 \<le> t" "1 \<le> n"
  shows "\<forall>x\<in>set (decompose g i t n). 0 \<le> x"
proof -
  consider "n = 1" | "n = 2" | "3 \<le> n" "t < n" | "3 \<le> n" "n \<le> t"
    using assms(2) by linarith
  then show ?thesis
  proof cases
    case 1
    with assms show ?thesis by (simp add: decompose_def generate_small)
  next
    case 2
    from assms(1) have "0 \<le> t div 4 \<and> t div 4 \<le> t" by (rule quarter_bounds)
    with 2 show ?thesis by (simp add: decompose_def generate_two)
  next
    case 3
    then show ?thesis by (simp add: decompose_def generate_fail)
  next
    case 4
    from generate_ok [OF 4, of g i]
    obtain ps cur where g: "generate_random_transactions_CTA g i t n
           = (None, i + nat (n - 2), ps @ [cur div 4, cur - cur div 4])"
      and c: "2 \<le> cur" and p: "\<forall>x\<in>set ps. 1 \<le> x"
      by blast
    from c have "0 \<le> cur div 4 \<and> cur div 4 \<le> cur" by (intro quarter_bounds) simp
    moreover have "\<forall>x\<in>set ps. 0 \<le> x" using p by force
    ultimately show ?thesis using g by (simp add: decompose_def)
  qed
qed

theorem decompose_nonneg_witness:
  "(0::int) \<le> 3 \<and> (1::int) \<le> 3 \<and> decompose Suc 0 3 3 \<noteq> []
     \<and> 0 \<le> hd (decompose Suc 0 3 3) \<and> 0 \<le> last (decompose Suc 0 3 3)"
proof -
  have ne: "decompose Suc 0 3 3 \<noteq> []"
    using generate_ok [of 3 3 Suc 0] by (auto simp: decompose_def)
  then have "hd (decompose Suc 0 3 3) \<in> set (decompose Suc 0 3 3)"
    and "last (decompose Suc 0 3 3) \<in> set (decompose Suc 0 3 3)"
    by simp_all
  with decompose_nonneg [of 3 3 Suc 0] ne show ?thesis by simp
qed

text \<open>
  The claim as written asks for positive elements. With a target of 3 and a count
  of 3 the draw is 1, the leftover is 2 and its quarter, the second element, is 0.
\<close>

theorem decompose_zero_counterexample:
  "(0::int) \<le> 3 \<and> (1::int) \<le> 3 \<and> (0::int) \<in> set (decompose Suc 0 3 3)"
  by (simp add: decompose_def generate_random_transactions_CTA_def descent.simps randint_def
      int_of_quotient_def)

text \<open>
  Claim C6. With a count of 2 the operation returns exactly two parts: the leftover
  (here the whole target) floor-divided by 4, and the rest of it; they sum exactly
  to the target. The target need not be non-negative for this.
\<close>

theorem decompose_two:
  "decompose g i t 2 = [t div 4, t - t div 4] \<and> sum_list (decompose g i t 2) = t
     \<and> length (decompose g i t 2) = 2"
  by (simp add: decompose_def generate_two)

section \<open>Properties of the timestamp assignment\<close>

lemma randint_ok:
  assumes "a \<le> b"
  shows "\<exists>x. randint a b r = Inr x \<and> a \<le> x \<and> x \<le> b"
proof -
  from randint_total [OF assms, of r] obtain x where "randint a b r = Inr x" ..
  with randint_range [of a b r x] show ?thesis by simp
qed

lemma assign_loop_ok:
  "\<exists>rs. assign_loop g i d amounts acc = (None, i + 3 * length amounts, acc @ rs)
     \<and> map snd rs = amounts
     \<and> (\<forall>r\<in>set rs. dt_date (fst r) = d \<and> 0 \<le> hour (fst r) \<and> hour (fst r) \<le> 23
          \<and> 0 \<le> minute (fst r) \<and> minute (fst r) \<le> 59
          \<and> 0 \<le> second (fst r) \<and> second (fst r) \<le> 59)"
proof (induction amounts arbitrary: i acc)
  case Nil
  show ?case by simp
next
  case (Cons amount rest)
  obtain h where h: "randint 0 23 (g i) = Inr h" "0 \<le> h" "h \<le> 23"
    using randint_ok [of 0 23 "g i"] by auto
  obtain m where m: "randint 0 59 (g (i + 1)) = Inr m" "0 \<le> m" "m \<le> 59"
    using randint_ok [of 0 59 "g (i + 1)"] by auto
  obtain s where s: "randint 0 59 (g (i + 2)) = Inr s" "0 \<le> s" "s \<le> 59"
    using randint_ok [of 0 59 "g (i + 2)"] by auto
  have t: "time_of_day h m s = Inr (h, m, s)"
    using h m s by (simp add: time_of_day_def)
  let ?r = "(combine d (h, m, s), amount)"
  from Cons.IH [of "i + 3" "acc @ [?r]"]
  obtain rs where rs: "assign_loop g (i + 3) d rest (acc @ [?r])
        = (None, i + 3 + 3 * length rest, (acc @ [?r]) @ rs)"
    and a: "map snd rs = rest"
    and b: "\<forall>r\<in>set rs. dt_date (fst r) = d \<and> 0 \<le> hour (fst r) \<and> hour (fst r) \<le> 23
          \<and> 0 \<le> minute (fst r) \<and> minute (fst r) \<le> 59
          \<and> 0 \<le> second (fst r) \<and> second (fst r) \<le> 59"
    by blast
  have f1: "assign_loop g i d (amount # rest) acc
      = (None, i + 3 * length (amount # rest), acc @ (?r # rs))"
    using h(1) m(1) s(1) t rs by simp
  have f2: "map snd (?r # rs) = amount # rest" using a by simp
  have f3: "\<forall>r\<in>set (?r # rs). dt_date (fst r) = d \<and> 0 \<le> hour (fst r) \<and> hour (fst r) \<le> 23
          \<and> 0 \<le> minute (fst r) \<and> minute (fst r) \<le> 59
          \<and> 0 \<le> second (fst r) \<and> second (fst r) \<le> 59"
    using b h m s by (simp add: combine_def)
  show ?case by (rule exI [of _ "?r # rs"]) (intro conjI f1 f2 f3)
qed

lemma create_ok:
  "\<exists>rs. create_transactions_one_day g i d amounts = (None, i + 3 * length amounts, rs)
     \<and> map snd rs = amounts
     \<and> (\<forall>r\<in>set rs. dt_date (fst r) = d \<and> 0 \<le> hour (fst r) \<and> hour (fst r) \<le> 23
          \<and> 0 \<le> minute (fst r) \<and> minute (fst r) \<le> 59
          \<and> 0 \<le> second (fst r) \<and> second (fst r) \<le> 59)"
  using assign_loop_ok [of g i d amounts "[]"] by (simp add: create_transactions_one_day_def)

text \<open>
  Claim C7. For every date and every list of amounts, whatever the random draws,
  no exception arises and the operation returns one record per amount; the
  amounts of the records are the input amounts, each once and in the input order;
  every timestamp is on the given date, with hour in \<open>[0, 23]\<close>, minute in
  \<open>[0, 59]\<close> and second in \<open>[0, 59]\<close>.
\<close>

theorem assign_records:
  "fst (create_transactions_one_day g i d amounts) = None
   \<and> length (assign g i d amounts) = length amounts
   \<and> map snd (assign g i d amounts) = amounts
   \<and> (\<forall>r\<in>set (assign g i d amounts).
         dt_date (fst r) = d \<and> 0 \<le> hour (fst r) \<and> hour (fst r) \<le> 23
          \<and> 0 \<le> minute (fst r) \<and> minute (fst r) \<le> 59
          \<and> 0 \<le> second (fst r) \<and> second (fst r) \<le> 59)"
proof -
  from create_ok [of g i d amounts]
  obtain rs where c: "create_transactions_one_day g i d amounts = (None, i + 3 * length amounts, rs)"
    and a: "map snd rs = amounts"
    and b: "\<forall>r\<in>set rs. dt_date (fst r) = d \<and> 0 \<le> hour (fst r) \<and> hour (fst r) \<le> 23
          \<and> 0 \<le> minute (fst r) \<and> minute (fst r) \<le> 59
          \<and> 0 \<le> second (fst r) \<and> second (fst r) \<le> 59"
    by blast
  from a have "length rs = length amounts" by (metis length_map)
  with c a b show ?thesis by (simp add: assign_def)
qed

theorem assign_records_witness:
  "assign Suc 0 738000 [10, 20] \<noteq> []
   \<and> length (assign Suc 0 738000 [10, 20]) = 2
   \<and> map snd (assign Suc 0 738000 [10, 20]) = [10, 20]
   \<and> dt_date (fst (hd (assign Suc 0 738000 [10, 20]))) = 738000
   \<and> hour (fst (hd (assign Suc 0 738000 [10, 20]))) \<le> 23
   \<and> minute (fst (last (assign Suc 0 738000 [10, 20]))) \<le> 59"
proof -
  let ?rs = "assign Suc 0 738000 [10, 20]"
  have l: "length ?rs = 2" using assign_records [of Suc 0 738000 "[10, 20]"] by simp
  then have ne: "?rs \<noteq> []" by auto
  then have "hd ?rs \<in> set ?rs" "last ?rs \<in> set ?rs" by simp_all
  with assign_records [of Suc 0 738000 "[10, 20]"] ne show ?thesis by simp
qed

section \<open>Properties of the forecast adjustment\<close>

lemma getitem_Inr: "getitem df c = Inr v \<longleftrightarrow> map_of (numeric df) c = Some v"
  by (simp add: getitem_def split: option.splits)

lemma getitem_Inl: "getitem df c = Inl e \<longleftrightarrow> map_of (numeric df) c = None \<and> e = KeyError"
  by (auto simp: getitem_def split: option.splits)

lemma setitem_fields:
  "nrows (setitem df c v) = nrows df" "timestamp (setitem df c v) = timestamp df"
  "transactions (setitem df c v) = transactions df"
  by (simp_all add: setitem_def)

lemma setitem_lookup:
  "map_of (numeric (setitem df c v)) c' = (if c' = c then Some v else map_of (numeric df) c')"
  by (simp add: setitem_def update_conv')

lemma setitem_labels:
  "map_of (numeric df) c = Some w \<Longrightarrow> map fst (numeric (setitem df c v)) = map fst (numeric df)"
proof -
  assume "map_of (numeric df) c = Some w"
  then have "(c, w) \<in> set (numeric df)" by (rule map_of_SomeD)
  then have "c \<in> fst ` set (numeric df)" by force
  then show ?thesis by (simp add: setitem_def update_keys)
qed

lemma update_lengths:
  "list_all (\<lambda>(c, v). length v = n) al \<Longrightarrow> length w = n
   \<Longrightarrow> list_all (\<lambda>(c, v). length v = n) (AList.update k w al)"
  by (induction al) auto

lemma setitem_wf:
  assumes "wf_frame df" "length v = nrows df"
  shows "wf_frame (setitem df c v)"
  using assms
  by (auto simp: wf_frame_def setitem_def distinct_update update_lengths split: option.splits)

lemma wf_column_length:
  assumes "wf_frame df" "map_of (numeric df) c = Some v"
  shows "length v = nrows df"
proof -
  from assms(2) have "(c, v) \<in> set (numeric df)" by (rule map_of_SomeD)
  with assms(1) show ?thesis by (auto simp: wf_frame_def list_all_iff)
qed

lemma modify_cases:
  "modify_forecasts df ta tm ca cm =
     (case map_of (numeric df) ''transactions_per_day_forecast'' of
        None \<Rightarrow> (Some KeyError, df)
      | Some trx \<Rightarrow>
          (case map_of (numeric df) ''CTA_forecast'' of
             None \<Rightarrow> (Some KeyError,
                        setitem df ''transactions_per_day_forecast'' (map (\<lambda>x. (x + ta) * tm) trx))
           | Some cta \<Rightarrow>
               (None, setitem (setitem df ''transactions_per_day_forecast''
                          (map (\<lambda>x. (x + ta) * tm) trx))
                        ''CTA_forecast'' (map (\<lambda>x. (x + ca) * cm) cta))))"
  by (simp add: modify_forecasts_def getitem_def setitem_lookup Let_def split: option.splits)

text \<open>
  Claim C10. Whatever the frame and the four parameters, the adjustment leaves the
  number of rows, the \<open>timestamp\<close> and \<open>transactions\<close> columns, the column labels
  and their order, and every integer column other than
  \<open>transactions_per_day_forecast\<close> and \<open>CTA_forecast\<close> as they were; a column it
  changes keeps its length, each row's new value standing where the old one stood,
  and a well-formed frame stays well-formed.
\<close>

theorem modify_frame:
  assumes "modify_forecasts df ta tm ca cm = (printed, df')"
  shows "nrows df' = nrows df \<and> timestamp df' = timestamp df
     \<and> transactions df' = transactions df
     \<and> map fst (numeric df') = map fst (numeric df)
     \<and> (\<forall>c. c \<noteq> ''transactions_per_day_forecast'' \<and> c \<noteq> ''CTA_forecast''
            \<longrightarrow> map_of (numeric df') c = map_of (numeric df) c)
     \<and> (\<forall>c v v'. map_of (numeric df) c = Some v \<and> map_of (numeric df') c = Some v'
            \<longrightarrow> length v' = length v)
     \<and> (wf_frame df \<longrightarrow> wf_frame df')"
proof (cases "map_of (numeric df) ''transactions_per_day_forecast''")
  case None
  with assms have "df' = df" by (simp add: modify_cases)
  then show ?thesis by auto
next
  case (Some trx)
  let ?df1 = "setitem df ''transactions_per_day_forecast'' (map (\<lambda>x. (x + ta) * tm) trx)"
  have l1: "map fst (numeric ?df1) = map fst (numeric df)"
    using Some by (rule setitem_labels)
  have w1: "wf_frame df \<Longrightarrow> wf_frame ?df1"
    using Some by (simp add: setitem_wf wf_column_length)
  show ?thesis
  proof (cases "map_of (numeric df) ''CTA_forecast''")
    case None
    with Some assms have "df' = ?df1" by (simp add: modify_cases)
    with Some l1 w1 show ?thesis by (auto simp: setitem_fields setitem_lookup)
  next
    case cta: (Some cta)
    let ?df2 = "setitem ?df1 ''CTA_forecast'' (map (\<lambda>x. (x + ca) * cm) cta)"
    from Some cta assms have d: "df' = ?df2" by (simp add: modify_cases)
    have c1: "map_of (numeric ?df1) ''CTA_forecast'' = Some cta"
      using cta by (simp add: setitem_lookup)
    have l2: "map fst (numeric ?df2) = map fst (numeric df)"
      using setitem_labels [OF c1] l1 by simp
    have w2: "wf_frame df \<Longrightarrow> wf_frame ?df2"
      using w1 cta by (simp add: setitem_wf wf_column_length setitem_fields)
    from d Some cta l2 w2 show ?thesis by (auto simp: setitem_fields setitem_lookup)
  qed
qed

theorem modify_frame_witness:
  "modify_forecasts
     \<lparr>nrows = 2, timestamp = None,
      numeric = [(''weekday'', [1, 2]), (''transactions_per_day_forecast'', [10, 20]),
                 (''CTA_forecast'', [100, 200])],
      transactions = None\<rparr> 5 5 5 5
   = (None,
      \<lparr>nrows = 2, timestamp = None,
       numeric = [(''weekday'', [1, 2]), (''transactions_per_day_forecast'', [75, 125]),
                  (''CTA_forecast'', [525, 1025])],
       transactions = None\<rparr>)
   \<and> wf_frame
      \<lparr>nrows = 2, timestamp = None,
       numeric = [(''weekday'', [1, 2]), (''transactions_per_day_forecast'', [75, 125]),
                  (''CTA_forecast'', [525, 1025])],
       transactions = None\<rparr>"
proof -
  let ?df = "\<lparr>nrows = 2, timestamp = None,
      numeric = [(''weekday'', [1, 2]), (''transactions_per_day_forecast'', [10, 20]),
                 (''CTA_forecast'', [100, 200 :: int])],
      transactions = None\<rparr>"
  let ?df' = "\<lparr>nrows = 2, timestamp = None,
       numeric = [(''weekday'', [1, 2]), (''transactions_per_day_forecast'', [75, 125]),
                  (''CTA_forecast'', [525, 1025 :: int])],
       transactions = None\<rparr>"
  have e: "modify_forecasts ?df 5 5 5 5 = (None, ?df')"
    by (simp add: modify_forecasts_def getitem_def setitem_def)
  have "wf_frame ?df" by (simp add: wf_frame_def)
  with modify_frame [OF e] have "wf_frame ?df'" by blast
  with e show ?thesis by blast
qed




section \<open>Properties of the replacement in the store\<close>

text \<open>
  Claim C9. When the ping succeeds and \<open>delete_many\<close> fails, the run ends there:
  no \<open>insert_many\<close> call is made, no random draw is consumed, and the collection
  is what the failed delete left, which is the old data.
\<close>

theorem delete_failure_aborts:
  assumes "\<not> ping_fails st" "delete_fails st"
  shows "save_transactions_data_to_mongodb g i df st coll = (i, coll, [Ping, DeleteMany])"
  using assms by (simp add: save_transactions_data_to_mongodb_def)

theorem delete_failure_aborts_witness:
  "\<not> ping_fails \<lparr>ping_fails = False, delete_fails = True, insert_fails = Map.empty\<rparr>
   \<and> delete_fails \<lparr>ping_fails = False, delete_fails = True, insert_fails = Map.empty\<rparr>
   \<and> save_transactions_data_to_mongodb Suc 0
        \<lparr>nrows = 1,
         timestamp = Some [\<lparr>dt_date = 738000, hour = 0, minute = 0, second = 0\<rparr>],
         numeric = [], transactions = Some [[4, 6]]\<rparr>
        \<lparr>ping_fails = False, delete_fails = True, insert_fails = Map.empty\<rparr>
        [(\<lparr>dt_date = 737999, hour = 9, minute = 30, second = 0\<rparr>, 7)]
     = (0, [(\<lparr>dt_date = 737999, hour = 9, minute = 30, second = 0\<rparr>, 7)], [Ping, DeleteMany])"
  using delete_failure_aborts [of
      "\<lparr>ping_fails = False, delete_fails = True, insert_fails = Map.empty\<rparr>" Suc 0
      "\<lparr>nrows = 1,
         timestamp = Some [\<lparr>dt_date = 738000, hour = 0, minute = 0, second = 0\<rparr>],
         numeric = [], transactions = Some [[4, 6]]\<rparr>"
      "[(\<lparr>dt_date = 737999, hour = 9, minute = 30, second = 0\<rparr>, 7)]"]
  by simp







section \<open>Properties of the synthesis run\<close>








end
